theory Spec2Isabelle
  imports Main
begin

section \<open>The tagged-image store\<close>

text \<open>
  The evaluator of \<^verbatim>\<open>src/search/query_evaluator.py\<close> reads three tables of an SQLite
  database; their columns are the ones its SQL text names:
  \<^item> \<^verbatim>\<open>images(id, path)\<close>,
  \<^item> \<^verbatim>\<open>tags(id, name)\<close>,
  \<^item> \<^verbatim>\<open>image_tags(image_id, tag_id)\<close>.
  A table is the list of its rows. The tables are not written by the evaluator (every
  connection is opened with \<^verbatim>\<open>PRAGMA query_only = ON\<close>), and are taken to be the same
  for all lookups of one evaluation.
\<close>

record Database =
  images :: "(string \<times> string) list"
  tags :: "(nat \<times> string) list"
  image_tags :: "(string \<times> nat) list"

subsection \<open>The SQL operators of the queries\<close>

text \<open>
  SQLite's built-in \<^verbatim>\<open>lower()\<close> folds the ASCII letters \<^verbatim>\<open>A\<close>..\<^verbatim>\<open>Z\<close> and leaves every other
  character alone.
\<close>

definition lower_char :: "char \<Rightarrow> char" where
  "lower_char c =
     (let n = (of_char c :: nat) in if 65 \<le> n \<and> n \<le> 90 then char_of (n + 32) else c)"

definition lower :: "string \<Rightarrow> string" where
  "lower s = map lower_char s"

text \<open>
  \<^verbatim>\<open>text LIKE pattern\<close> without an \<^verbatim>\<open>ESCAPE\<close> clause: \<^verbatim>\<open>%\<close> in the pattern matches any
  sequence of characters (the empty one too), \<^verbatim>\<open>_\<close> matches any single character, and
  every other character matches itself up to ASCII letter case. The first argument is the
  pattern.
\<close>

fun like :: "string \<Rightarrow> string \<Rightarrow> bool" where
  "like [] s = (s = [])"
| "like (p # ps) [] = (p = CHR ''%'' \<and> like ps [])"
| "like (p # ps) (c # cs) =
     (if p = CHR ''%'' then like ps (c # cs) \<or> like (p # ps) cs
      else (p = CHR ''_'' \<or> lower_char p = lower_char c) \<and> like ps cs)"

subsection \<open>Store accesses that fail\<close>

text \<open>
  Each lookup opens a connection and runs one query inside \<^verbatim>\<open>try\<close>; anything that raises
  \<^verbatim>\<open>sqlite3.Error\<close> there ends in the \<^verbatim>\<open>except\<close> branch, which prints a message and returns
  the empty set. Whether a lookup raises is not decided by the evaluator, so the world it
  runs in carries the outcomes of the coming lookups (\<open>True\<close>: the lookup raises
  \<^verbatim>\<open>sqlite3.Error\<close>; past the end of the list no lookup raises), the number of lookups made
  so far, and what has been printed.
\<close>

datatype report =
    TagLookupFailed string
  | ScopeLookupFailed
  | ScopeFilterFailed

record world =
  faults :: "bool list"
  lookups :: nat
  printed :: "report list"

definition raises :: "world \<Rightarrow> bool" where
  "raises w = (case faults w of [] \<Rightarrow> False | b # _ \<Rightarrow> b)"

definition lookup_ok :: "world \<Rightarrow> world" where
  "lookup_ok w = w\<lparr>faults := tl (faults w), lookups := Suc (lookups w)\<rparr>"

definition lookup_failed :: "report \<Rightarrow> world \<Rightarrow> world" where
  "lookup_failed r w =
     w\<lparr>faults := tl (faults w), lookups := Suc (lookups w), printed := printed w @ [r]\<rparr>"

section \<open>The abstract syntax tree\<close>

text \<open>
  The six node classes that \<^verbatim>\<open>evaluate\<close> tests with \<^verbatim>\<open>isinstance\<close>, in its order, with the
  fields it reads; \<open>OtherNode\<close> stands for an object of any other class, and carries the
  name of that class, which the error message shows.
\<close>

datatype ASTNode =
    TagNode (tag: string)
  | AllImagesNode
  | AndNode (left: ASTNode) (right: ASTNode)
  | OrNode (left: ASTNode) (right: ASTNode)
  | NotNode (node: ASTNode)
  | BracketNode (expression: ASTNode)
  | OtherNode string

datatype error = ValueError string

section \<open>The evaluator\<close>

record SearchQueryEvaluator =
  db :: Database
  selected_directories :: "string set"

text \<open>
  \<^verbatim>\<open>__init__\<close> stores the set of the normalized directories. \<^verbatim>\<open>normalize_path\<close> is imported
  from \<^verbatim>\<open>utils.path_utils\<close>, and is a parameter here.
\<close>

definition init ::
  "(string \<Rightarrow> string) \<Rightarrow> Database \<Rightarrow> string set \<Rightarrow> SearchQueryEvaluator" where
  "init normalize_path d dirs =
     \<lparr>db = d, selected_directories = normalize_path ` dirs\<rparr>"

text \<open>
  The loop that the three lookups share: a directory that does not end with \<^verbatim>\<open>/\<close> gets one,
  and the parameter of its \<^verbatim>\<open>LIKE\<close> condition is the directory followed by \<^verbatim>\<open>%\<close>. The
  conditions are joined with \<^verbatim>\<open>OR\<close>.
\<close>

definition endswith_sep :: "string \<Rightarrow> bool" where
  "endswith_sep d = (d \<noteq> [] \<and> last d = CHR ''/'')"

definition dir_param :: "string \<Rightarrow> string" where
  "dir_param norm_dir =
     (if \<not> endswith_sep norm_dir then norm_dir @ ''/'' else norm_dir) @ ''%''"

definition dir_where_clause :: "string set \<Rightarrow> string \<Rightarrow> bool" where
  "dir_where_clause dirs path = (\<exists>norm_dir\<in>dirs. like (dir_param norm_dir) path)"

text \<open>The rows that the three \<^verbatim>\<open>SELECT\<close> statements return, as sets of image ids.\<close>

definition select_by_tag :: "SearchQueryEvaluator \<Rightarrow> string \<Rightarrow> string set" where
  "select_by_tag ev t =
     set [image_id.
            (image_id, tag_id) \<leftarrow> image_tags (db ev),
            (tid, name) \<leftarrow> tags (db ev), tag_id = tid,
            (iid, path) \<leftarrow> images (db ev), image_id = iid,
            lower name = lower t \<and> dir_where_clause (selected_directories ev) path]"

definition select_all_in_scope :: "SearchQueryEvaluator \<Rightarrow> string set" where
  "select_all_in_scope ev =
     set [iid. (iid, path) \<leftarrow> images (db ev),
            dir_where_clause (selected_directories ev) path]"


definition get_image_ids_by_tag ::
  "SearchQueryEvaluator \<Rightarrow> string \<Rightarrow> world \<Rightarrow> string set \<times> world" where
  "get_image_ids_by_tag ev t w =
     (if selected_directories ev = {} then ({}, w)
      else if raises w then ({}, lookup_failed (TagLookupFailed t) w)
      else (select_by_tag ev t, lookup_ok w))"

definition get_all_image_ids_in_scope ::
  "SearchQueryEvaluator \<Rightarrow> world \<Rightarrow> string set \<times> world" where
  "get_all_image_ids_in_scope ev w =
     (if selected_directories ev = {} then ({}, w)
      else if raises w then ({}, lookup_failed ScopeLookupFailed w)
      else (select_all_in_scope ev, lookup_ok w))"


text \<open>
  \<^verbatim>\<open>evaluate\<close>: the result is the raised error, or the returned set with the world after
  the call.
\<close>

fun evaluate ::
  "SearchQueryEvaluator \<Rightarrow> ASTNode \<Rightarrow> world \<Rightarrow> error + (string set \<times> world)" where
  "evaluate ev (TagNode t) w = Inr (get_image_ids_by_tag ev t w)"
| "evaluate ev AllImagesNode w = Inr (get_all_image_ids_in_scope ev w)"
| "evaluate ev (AndNode l r) w =
     (case evaluate ev l w of
        Inl e \<Rightarrow> Inl e
      | Inr (left_set, w1) \<Rightarrow>
          if left_set = {} then Inr ({}, w1)
          else (case evaluate ev r w1 of
                  Inl e \<Rightarrow> Inl e
                | Inr (right_set, w2) \<Rightarrow> Inr (left_set \<inter> right_set, w2)))"
| "evaluate ev (OrNode l r) w =
     (case evaluate ev l w of
        Inl e \<Rightarrow> Inl e
      | Inr (left_set, w1) \<Rightarrow>
          (case evaluate ev r w1 of
             Inl e \<Rightarrow> Inl e
           | Inr (right_set, w2) \<Rightarrow> Inr (left_set \<union> right_set, w2)))"
| "evaluate ev (NotNode n) w =
     (case get_all_image_ids_in_scope ev w of
        (all_in_scope, w1) \<Rightarrow>
          (case evaluate ev n w1 of
             Inl e \<Rightarrow> Inl e
           | Inr (excluded_set, w2) \<Rightarrow> Inr (all_in_scope - excluded_set, w2)))"
| "evaluate ev (BracketNode n) w = evaluate ev n w"
| "evaluate ev (OtherNode ty) w = Inl (ValueError ty)"

text \<open>The set that a call returns, or the error that it raises.\<close>

definition result :: "error + (string set \<times> world) \<Rightarrow> error + string set" where
  "result r = map_sum id fst r"

text \<open>A tree built from the six node classes only.\<close>

fun six_variants :: "ASTNode \<Rightarrow> bool" where
  "six_variants (TagNode t) = True"
| "six_variants AllImagesNode = True"
| "six_variants (AndNode l r) = (six_variants l \<and> six_variants r)"
| "six_variants (OrNode l r) = (six_variants l \<and> six_variants r)"
| "six_variants (NotNode n) = six_variants n"
| "six_variants (BracketNode n) = six_variants n"
| "six_variants (OtherNode ty) = False"

text \<open>A world in which no coming lookup raises.\<close>

definition no_failure :: "world \<Rightarrow> bool" where
  "no_failure w = (True \<notin> set (faults w))"

subsection \<open>A small store\<close>

text \<open>
  Three images: \<^verbatim>\<open>1\<close> tagged cat at \<^verbatim>\<open>/a/1\<close>, \<^verbatim>\<open>2\<close> tagged dog at \<^verbatim>\<open>/a/2\<close>, and \<^verbatim>\<open>3\<close> tagged
  cat and dog at \<^verbatim>\<open>/b/3\<close>; the selected directory is \<^verbatim>\<open>/a\<close>.
\<close>

definition scenario_db :: Database where
  "scenario_db =
     \<lparr>images = [(''1'', ''/a/1''), (''2'', ''/a/2''), (''3'', ''/b/3'')],
      tags = [(1, ''cat''), (2, ''dog'')],
      image_tags = [(''1'', 1), (''2'', 2), (''3'', 1), (''3'', 2)]\<rparr>"

definition scenario_evaluator :: SearchQueryEvaluator where
  "scenario_evaluator = \<lparr>db = scenario_db, selected_directories = {''/a''}\<rparr>"

definition quiet :: world where
  "quiet = \<lparr>faults = [], lookups = 0, printed = []\<rparr>"

text \<open>
  The class names of the objects in a tree that are not of the six node classes.
\<close>

fun other_classes :: "ASTNode \<Rightarrow> string set" where
  "other_classes (TagNode t) = {}"
| "other_classes AllImagesNode = {}"
| "other_classes (AndNode l r) = other_classes l \<union> other_classes r"
| "other_classes (OrNode l r) = other_classes l \<union> other_classes r"
| "other_classes (NotNode n) = other_classes n"
| "other_classes (BracketNode n) = other_classes n"
| "other_classes (OtherNode ty) = {ty}"

section \<open>Lookups stay inside the scope\<close>

lemma select_by_tag_subset: "select_by_tag ev t \<subseteq> select_all_in_scope ev"
  by (auto simp: select_by_tag_def select_all_in_scope_def)


lemma select_all_in_scope_iff:
  "i \<in> select_all_in_scope ev \<longleftrightarrow>
     (\<exists>p. (i, p) \<in> set (images (db ev)) \<and> dir_where_clause (selected_directories ev) p)"
  by (auto simp: select_all_in_scope_def)

lemma select_all_empty_scope:
  "selected_directories ev = {} \<Longrightarrow> select_all_in_scope ev = {}"
  by (simp add: select_all_in_scope_def dir_where_clause_def)

lemma get_all_subset: "fst (get_all_image_ids_in_scope ev w) \<subseteq> select_all_in_scope ev"
  by (simp add: get_all_image_ids_in_scope_def)

lemma get_by_tag_subset: "fst (get_image_ids_by_tag ev t w) \<subseteq> select_all_in_scope ev"
  by (simp add: get_image_ids_by_tag_def select_by_tag_subset)

lemma get_all_calm:
  "\<not> raises w \<Longrightarrow> fst (get_all_image_ids_in_scope ev w) = select_all_in_scope ev"
  by (simp add: get_all_image_ids_in_scope_def select_all_empty_scope)

lemma evaluate_subset:
  "evaluate ev n w = Inr (r, w') \<Longrightarrow> r \<subseteq> select_all_in_scope ev"
proof (induction n arbitrary: w r w')
  case (TagNode t)
  then show ?case using get_by_tag_subset [of ev t w] by auto
next
  case AllImagesNode
  then show ?case using get_all_subset [of ev w] by auto
next
  case (AndNode l r')
  then show ?case
    by (auto split: sum.splits prod.splits if_splits)
next
  case (OrNode l r')
  then show ?case
    by (auto split: sum.splits prod.splits) blast+
next
  case (NotNode n)
  then show ?case
    using get_all_subset [of ev w]
    by (auto split: sum.splits prod.splits)
next
  case (BracketNode n)
  then show ?case by simp
next
  case (OtherNode ty)
  then show ?case by simp
qed

text \<open>
  C1. Whatever the tree and the world, the set that \<^verbatim>\<open>evaluate\<close> returns holds only ids of
  images in scope: it is a subset of the rows of the scope query, which is what
  \<^verbatim>\<open>get_all_image_ids_in_scope\<close> returns when its lookup does not raise.
\<close>

theorem evaluate_within_scope:
  assumes "evaluate ev n w = Inr (r, w')"
  shows "r \<subseteq> select_all_in_scope ev \<and>
         (\<not> raises w0 \<longrightarrow> r \<subseteq> fst (get_all_image_ids_in_scope ev w0))"
  using evaluate_subset [OF assms] by (simp add: get_all_calm)

theorem evaluate_within_scope_witness:
  "evaluate scenario_evaluator (NotNode (TagNode ''cat'')) quiet
     = Inr ({''2''}, \<lparr>faults = [], lookups = 2, printed = []\<rparr>)
   \<and> \<not> raises quiet
   \<and> {''2''} \<subseteq> fst (get_all_image_ids_in_scope scenario_evaluator quiet)"
proof -
  have e: "evaluate scenario_evaluator (NotNode (TagNode ''cat'')) quiet
     = Inr ({''2''}, \<lparr>faults = [], lookups = 2, printed = []\<rparr>)"
    by code_simp
  have q: "\<not> raises quiet" by code_simp
  show ?thesis using evaluate_within_scope [OF e, of quiet] e q by blast
qed

section \<open>Worlds without failures\<close>

lemma no_failure_not_raises: "no_failure w \<Longrightarrow> \<not> raises w"
  by (auto simp: no_failure_def raises_def split: list.splits)

lemma no_failure_lookup_ok: "no_failure w \<Longrightarrow> no_failure (lookup_ok w)"
  by (cases "faults w") (auto simp: no_failure_def lookup_ok_def)

lemma select_by_tag_empty_scope:
  "selected_directories ev = {} \<Longrightarrow> select_by_tag ev t = {}"
  by (auto simp: select_by_tag_def dir_where_clause_def)

lemma calm_get_all:
  "no_failure w \<Longrightarrow>
     \<exists>w'. get_all_image_ids_in_scope ev w = (select_all_in_scope ev, w') \<and> no_failure w'"
  by (simp add: get_all_image_ids_in_scope_def select_all_empty_scope
        no_failure_not_raises no_failure_lookup_ok)

lemma calm_get_by_tag:
  "no_failure w \<Longrightarrow>
     \<exists>w'. get_image_ids_by_tag ev t w = (select_by_tag ev t, w') \<and> no_failure w'"
  by (simp add: get_image_ids_by_tag_def select_by_tag_empty_scope
        no_failure_not_raises no_failure_lookup_ok)

lemma get_all_keeps_calm:
  "no_failure w \<Longrightarrow> no_failure (snd (get_all_image_ids_in_scope ev w))"
  using calm_get_all [of w ev] by auto

lemma get_by_tag_keeps_calm:
  "no_failure w \<Longrightarrow> no_failure (snd (get_image_ids_by_tag ev t w))"
  using calm_get_by_tag [of w ev t] by auto

lemma evaluate_keeps_calm:
  "no_failure w \<Longrightarrow> evaluate ev n w = Inr (r, w') \<Longrightarrow> no_failure w'"
proof (induction n arbitrary: w r w')
  case (TagNode t)
  then show ?case using get_by_tag_keeps_calm [of w ev t] by auto
next
  case AllImagesNode
  then show ?case using get_all_keeps_calm [of w ev] by auto
next
  case (AndNode l r')
  from AndNode.prems(2) obtain ls w1 where l: "evaluate ev l w = Inr (ls, w1)"
    by (cases "evaluate ev l w") auto
  have c1: "no_failure w1" using AndNode.IH(1) [OF AndNode.prems(1) l] .
  show ?case
  proof (cases "ls = {}")
    case True
    with l AndNode.prems(2) have "w' = w1" by simp
    with c1 show ?thesis by simp
  next
    case False
    with l AndNode.prems(2) obtain rs where "evaluate ev r' w1 = Inr (rs, w')"
      by (cases "evaluate ev r' w1") auto
    then show ?thesis using AndNode.IH(2) [OF c1] by blast
  qed
next
  case (OrNode l r')
  from OrNode.prems(2) obtain ls w1 where l: "evaluate ev l w = Inr (ls, w1)"
    by (cases "evaluate ev l w") auto
  have c1: "no_failure w1" using OrNode.IH(1) [OF OrNode.prems(1) l] .
  from l OrNode.prems(2) obtain rs where "evaluate ev r' w1 = Inr (rs, w')"
    by (cases "evaluate ev r' w1") auto
  then show ?case using OrNode.IH(2) [OF c1] by blast
next
  case (NotNode n)
  obtain u w1 where g: "get_all_image_ids_in_scope ev w = (u, w1)"
    by (cases "get_all_image_ids_in_scope ev w") auto
  have c1: "no_failure w1" using get_all_keeps_calm [OF NotNode.prems(1), of ev] g by simp
  from g NotNode.prems(2) obtain ex where "evaluate ev n w1 = Inr (ex, w')"
    by (cases "evaluate ev n w1") auto
  then show ?case using NotNode.IH [OF c1] by blast
next
  case (BracketNode n)
  then show ?case by simp
next
  case (OtherNode ty)
  then show ?case by simp
qed

lemma result_Inl: "result x = Inl e \<longleftrightarrow> x = Inl e"
  by (cases x) (auto simp: result_def)

lemma result_Inr: "result x = Inr s \<longleftrightarrow> (\<exists>w. x = Inr (s, w))"
  by (cases x) (auto simp: result_def)

text \<open>
  Two evaluations of one tree in worlds without failures agree: both raise the same
  error or both return the same set.
\<close>

lemma same_result:
  assumes "result x = result y"
  obtains (raised) e where "x = Inl e" "y = Inl e"
        | (returned) s u v where "x = Inr (s, u)" "y = Inr (s, v)"
proof (cases x)
  case (Inl e)
  with assms have "result y = Inl e" by (simp add: result_def)
  then have "y = Inl e" by (simp add: result_Inl)
  with Inl show ?thesis by (rule raised)
next
  case (Inr p)
  obtain s u where p: "p = (s, u)" by (cases p)
  with Inr assms have "result y = Inr s" by (simp add: result_def)
  then obtain v where "y = Inr (s, v)" unfolding result_Inr by blast
  with Inr p show ?thesis using returned by blast
qed

lemma evaluate_calm_result:
  "no_failure w1 \<Longrightarrow> no_failure w2 \<Longrightarrow>
     result (evaluate ev n w1) = result (evaluate ev n w2)"
proof (induction n arbitrary: w1 w2)
  case (TagNode t)
  then show ?case
    using calm_get_by_tag [of w1 ev t] calm_get_by_tag [of w2 ev t]
    by (auto simp: result_def)
next
  case AllImagesNode
  then show ?case
    using calm_get_all [of w1 ev] calm_get_all [of w2 ev]
    by (auto simp: result_def)
next
  case (AndNode l r)
  have "result (evaluate ev l w1) = result (evaluate ev l w2)"
    using AndNode.IH(1) AndNode.prems by blast
  then show ?case
  proof (cases rule: same_result)
    case (raised e)
    then show ?thesis by simp
  next
    case (returned s u1 u2)
    have "no_failure u1" using evaluate_keeps_calm [OF AndNode.prems(1) returned(1)] .
    moreover have "no_failure u2" using evaluate_keeps_calm [OF AndNode.prems(2) returned(2)] .
    ultimately have "result (evaluate ev r u1) = result (evaluate ev r u2)"
      using AndNode.IH(2) by blast
    then show ?thesis
      using returned by (cases rule: same_result) (simp_all add: result_def)
  qed
next
  case (OrNode l r)
  have "result (evaluate ev l w1) = result (evaluate ev l w2)"
    using OrNode.IH(1) OrNode.prems by blast
  then show ?case
  proof (cases rule: same_result)
    case (raised e)
    then show ?thesis by simp
  next
    case (returned s u1 u2)
    have "no_failure u1" using evaluate_keeps_calm [OF OrNode.prems(1) returned(1)] .
    moreover have "no_failure u2" using evaluate_keeps_calm [OF OrNode.prems(2) returned(2)] .
    ultimately have "result (evaluate ev r u1) = result (evaluate ev r u2)"
      using OrNode.IH(2) by blast
    then show ?thesis
      using returned by (cases rule: same_result) (simp_all add: result_def)
  qed
next
  case (NotNode n)
  obtain u1 where u1: "get_all_image_ids_in_scope ev w1 = (select_all_in_scope ev, u1)"
      "no_failure u1"
    using calm_get_all [OF NotNode.prems(1)] by blast
  obtain u2 where u2: "get_all_image_ids_in_scope ev w2 = (select_all_in_scope ev, u2)"
      "no_failure u2"
    using calm_get_all [OF NotNode.prems(2)] by blast
  have "result (evaluate ev n u1) = result (evaluate ev n u2)"
    using NotNode.IH u1(2) u2(2) by blast
  then show ?case
    using u1(1) u2(1) by (cases rule: same_result) (simp_all add: result_def)
next
  case (BracketNode n)
  show ?case using BracketNode.IH [OF BracketNode.prems] by simp
next
  case (OtherNode ty)
  show ?case by simp
qed

lemma double_not:
  assumes "no_failure w"
  shows "result (evaluate ev (NotNode (NotNode a)) w) = result (evaluate ev a w)"
proof -
  obtain u1 where u1: "get_all_image_ids_in_scope ev w = (select_all_in_scope ev, u1)"
      "no_failure u1"
    using calm_get_all [OF assms] by blast
  obtain u2 where u2: "get_all_image_ids_in_scope ev u1 = (select_all_in_scope ev, u2)"
      "no_failure u2"
    using calm_get_all [OF u1(2)] by blast
  have "result (evaluate ev a u2) = result (evaluate ev a w)"
    using evaluate_calm_result [OF u2(2) assms] .
  then show ?thesis
  proof (cases rule: same_result)
    case (raised e)
    then show ?thesis using u1(1) u2(1) by (simp add: result_def)
  next
    case (returned s u3 v)
    then have "s \<subseteq> select_all_in_scope ev" using evaluate_subset by blast
    then have "select_all_in_scope ev - (select_all_in_scope ev - s) = s" by blast
    then show ?thesis using u1(1) u2(1) returned by (simp add: result_def)
  qed
qed

section \<open>The empty scope\<close>

lemma empty_scope_unchanged:
  "selected_directories ev = {} \<Longrightarrow> six_variants n \<Longrightarrow> evaluate ev n w = Inr ({}, w)"
  by (induction n arbitrary: w)
     (simp_all add: get_image_ids_by_tag_def get_all_image_ids_in_scope_def)

text \<open>
  C2. With no selected directory, \<^verbatim>\<open>evaluate\<close> returns the empty set for every tree of the
  six node classes, and the world after the call is the world before it: no lookup was
  made, nothing was printed.
\<close>

theorem empty_scope_evaluates_empty:
  assumes "six_variants n"
  shows "evaluate (init normalize_path d {}) n w = Inr ({}, w)"
  using assms by (simp add: empty_scope_unchanged init_def)

theorem empty_scope_evaluates_empty_witness:
  "six_variants (NotNode AllImagesNode) \<and>
   evaluate (init (\<lambda>p. p) scenario_db {}) (NotNode AllImagesNode) quiet = Inr ({}, quiet)"
proof -
  have s: "six_variants (NotNode AllImagesNode)" by simp
  show ?thesis using empty_scope_evaluates_empty [OF s] s by blast
qed

section \<open>The operators\<close>



text \<open>
  C4. When the left operand of an \<^verbatim>\<open>AndNode\<close> evaluates to the empty set, the result is the
  empty set and the world is the one the left operand left, whatever the right operand is
  (an object that \<^verbatim>\<open>evaluate\<close> would raise on included): the right operand is not
  evaluated. Whenever the right operand returns a set, the result is the intersection of
  the two sets.
\<close>

theorem and_node_short_circuit:
  assumes "evaluate ev l w = Inr (left_set, w1)"
  shows "(left_set = {} \<longrightarrow> evaluate ev (AndNode l r) w = Inr ({}, w1))
       \<and> (\<forall>right_set w2. evaluate ev r w1 = Inr (right_set, w2) \<longrightarrow>
            evaluate ev (AndNode l r) w
              = Inr (left_set \<inter> right_set, if left_set = {} then w1 else w2))"
  using assms by simp

theorem and_node_short_circuit_witness:
  "evaluate scenario_evaluator (TagNode ''bird'') quiet
     = Inr ({}, \<lparr>faults = [], lookups = 1, printed = []\<rparr>)
   \<and> evaluate scenario_evaluator (AndNode (TagNode ''bird'') (OtherNode ''int'')) quiet
     = Inr ({}, \<lparr>faults = [], lookups = 1, printed = []\<rparr>)
   \<and> evaluate scenario_evaluator (TagNode ''cat'') quiet
     = Inr ({''1''}, \<lparr>faults = [], lookups = 1, printed = []\<rparr>)
   \<and> evaluate scenario_evaluator AllImagesNode \<lparr>faults = [], lookups = 1, printed = []\<rparr>
     = Inr ({''1'', ''2''}, \<lparr>faults = [], lookups = 2, printed = []\<rparr>)
   \<and> evaluate scenario_evaluator (AndNode (TagNode ''cat'') AllImagesNode) quiet
     = Inr ({''1''} \<inter> {''1'', ''2''}, \<lparr>faults = [], lookups = 2, printed = []\<rparr>)"
proof -
  have a: "evaluate scenario_evaluator (TagNode ''bird'') quiet
     = Inr ({}, \<lparr>faults = [], lookups = 1, printed = []\<rparr>)"
    by code_simp
  have b: "evaluate scenario_evaluator (TagNode ''cat'') quiet
     = Inr ({''1''}, \<lparr>faults = [], lookups = 1, printed = []\<rparr>)"
    by code_simp
  have c: "evaluate scenario_evaluator AllImagesNode \<lparr>faults = [], lookups = 1, printed = []\<rparr>
     = Inr ({''1'', ''2''}, \<lparr>faults = [], lookups = 2, printed = []\<rparr>)"
    by code_simp
  have ne: "{''1''} \<noteq> ({} :: string set)" by simp
  show ?thesis
    using and_node_short_circuit [OF a, of "OtherNode ''int''"]
      and_node_short_circuit [OF b, of AllImagesNode] a b c ne
    by simp
qed

text \<open>
  C8, as amended. When no lookup raises, \<^verbatim>\<open>evaluate\<close> of \<^verbatim>\<open>NotNode(NotNode(a))\<close> returns the set
  that \<^verbatim>\<open>evaluate(a)\<close> returns, or raises the error that it raises.
\<close>

theorem double_negation_without_failure:
  assumes "no_failure w"
  shows "result (evaluate ev (NotNode (NotNode a)) w) = result (evaluate ev a w)"
  using double_not [OF assms] .

theorem double_negation_without_failure_witness:
  "no_failure quiet \<and>
   result (evaluate scenario_evaluator (NotNode (NotNode (TagNode ''cat''))) quiet)
     = result (evaluate scenario_evaluator (TagNode ''cat'') quiet)"
proof -
  have q: "no_failure quiet" by code_simp
  show ?thesis using double_negation_without_failure [OF q] q by blast
qed

text \<open>
  C8, as stated, fails when a lookup raises: with the third lookup failing,
  \<^verbatim>\<open>evaluate(AllImagesNode)\<close> makes one lookup and returns the two images in scope, while
  in \<^verbatim>\<open>evaluate(NotNode(NotNode(AllImagesNode)))\<close> the inner lookup fails and the result is
  empty.
\<close>

theorem double_negation_counterexample:
  "result (evaluate scenario_evaluator (NotNode (NotNode AllImagesNode))
             \<lparr>faults = [False, False, True], lookups = 0, printed = []\<rparr>)
   \<noteq> result (evaluate scenario_evaluator AllImagesNode
             \<lparr>faults = [False, False, True], lookups = 0, printed = []\<rparr>)"
  by code_simp

section \<open>Lookups that fail\<close>

lemma get_by_tag_printed:
  "set (printed w) \<subseteq> set (printed (snd (get_image_ids_by_tag ev t w)))"
  by (auto simp: get_image_ids_by_tag_def lookup_failed_def lookup_ok_def)

lemma get_all_printed:
  "set (printed w) \<subseteq> set (printed (snd (get_all_image_ids_in_scope ev w)))"
  by (auto simp: get_all_image_ids_in_scope_def lookup_failed_def lookup_ok_def)

lemma evaluate_printed:
  "evaluate ev n w = Inr (r, w') \<Longrightarrow> set (printed w) \<subseteq> set (printed w')"
proof (induction n arbitrary: w r w')
  case (TagNode t)
  then show ?case using get_by_tag_printed [of w ev t] by auto
next
  case AllImagesNode
  then show ?case using get_all_printed [of w ev] by auto
next
  case (AndNode l r')
  from AndNode.prems obtain ls w1 where l: "evaluate ev l w = Inr (ls, w1)"
    by (cases "evaluate ev l w") auto
  have p1: "set (printed w) \<subseteq> set (printed w1)" using AndNode.IH(1) [OF l] .
  show ?case
  proof (cases "ls = {}")
    case True
    with l AndNode.prems have "w' = w1" by simp
    with p1 show ?thesis by simp
  next
    case False
    with l AndNode.prems obtain rs where "evaluate ev r' w1 = Inr (rs, w')"
      by (cases "evaluate ev r' w1") auto
    then have "set (printed w1) \<subseteq> set (printed w')" by (rule AndNode.IH(2))
    with p1 show ?thesis by blast
  qed
next
  case (OrNode l r')
  from OrNode.prems obtain ls w1 where l: "evaluate ev l w = Inr (ls, w1)"
    by (cases "evaluate ev l w") auto
  have p1: "set (printed w) \<subseteq> set (printed w1)" using OrNode.IH(1) [OF l] .
  from l OrNode.prems obtain rs where "evaluate ev r' w1 = Inr (rs, w')"
    by (cases "evaluate ev r' w1") auto
  then have "set (printed w1) \<subseteq> set (printed w')" by (rule OrNode.IH(2))
  with p1 show ?case by blast
next
  case (NotNode n)
  obtain u w1 where g: "get_all_image_ids_in_scope ev w = (u, w1)"
    by (cases "get_all_image_ids_in_scope ev w") auto
  have p1: "set (printed w) \<subseteq> set (printed w1)" using get_all_printed [of w ev] g by simp
  from g NotNode.prems obtain ex where "evaluate ev n w1 = Inr (ex, w')"
    by (cases "evaluate ev n w1") auto
  then have "set (printed w1) \<subseteq> set (printed w')" by (rule NotNode.IH)
  with p1 show ?case by blast
next
  case (BracketNode n)
  from BracketNode.prems have "evaluate ev n w = Inr (r, w')" by simp
  then show ?case by (rule BracketNode.IH)
next
  case (OtherNode ty)
  then show ?case by simp
qed

lemma failed_tag_lookup:
  "selected_directories ev \<noteq> {} \<Longrightarrow> raises w \<Longrightarrow>
     get_image_ids_by_tag ev t w = ({}, lookup_failed (TagLookupFailed t) w)"
  by (simp add: get_image_ids_by_tag_def)

lemma failed_scope_lookup:
  "selected_directories ev \<noteq> {} \<Longrightarrow> raises w \<Longrightarrow>
     get_all_image_ids_in_scope ev w = ({}, lookup_failed ScopeLookupFailed w)"
  by (simp add: get_all_image_ids_in_scope_def)

lemma lookup_failed_printed: "r \<in> set (printed (lookup_failed r w))"
  by (simp add: lookup_failed_def)

text \<open>
  C5. A leaf lookup that raises \<^verbatim>\<open>sqlite3.Error\<close> returns the empty set and adds its report to
  what is printed; \<^verbatim>\<open>evaluate\<close> goes on. So an \<^verbatim>\<open>OrNode\<close> with such a leaf on one side
  returns what its other side returns, and the report of the failed lookup is among what
  has been printed at the end.
\<close>

theorem failed_lookup_degrades:
  assumes "selected_directories ev \<noteq> {}" and "raises w"
  shows "get_image_ids_by_tag ev t w = ({}, lookup_failed (TagLookupFailed t) w)
       \<and> get_all_image_ids_in_scope ev w = ({}, lookup_failed ScopeLookupFailed w)
       \<and> (\<forall>r right_set w2.
            evaluate ev r (lookup_failed (TagLookupFailed t) w) = Inr (right_set, w2) \<longrightarrow>
              evaluate ev (OrNode (TagNode t) r) w = Inr (right_set, w2)
              \<and> TagLookupFailed t \<in> set (printed w2))
       \<and> (\<forall>l left_set w0.
            evaluate ev l w0 = Inr (left_set, w) \<longrightarrow>
              evaluate ev (OrNode l (TagNode t)) w0
                = Inr (left_set, lookup_failed (TagLookupFailed t) w))"
proof -
  have a: "get_image_ids_by_tag ev t w = ({}, lookup_failed (TagLookupFailed t) w)"
    using assms by (rule failed_tag_lookup)
  have b: "get_all_image_ids_in_scope ev w = ({}, lookup_failed ScopeLookupFailed w)"
    using assms by (rule failed_scope_lookup)
  have c: "evaluate ev (OrNode (TagNode t) r) w = Inr (right_set, w2)
           \<and> TagLookupFailed t \<in> set (printed w2)"
    if r: "evaluate ev r (lookup_failed (TagLookupFailed t) w) = Inr (right_set, w2)"
    for r right_set w2
  proof -
    have "evaluate ev (OrNode (TagNode t) r) w = Inr (right_set, w2)"
      using a r by simp
    moreover have "TagLookupFailed t \<in> set (printed w2)"
      using evaluate_printed [OF r] lookup_failed_printed [of "TagLookupFailed t" w] by blast
    ultimately show ?thesis by blast
  qed
  have d: "evaluate ev (OrNode l (TagNode t)) w0
             = Inr (left_set, lookup_failed (TagLookupFailed t) w)"
    if "evaluate ev l w0 = Inr (left_set, w)" for l left_set w0
    using a that by simp
  show ?thesis using a b c d by blast
qed

theorem failed_lookup_degrades_witness:
  "selected_directories scenario_evaluator \<noteq> {}
   \<and> raises \<lparr>faults = [True], lookups = 0, printed = []\<rparr>
   \<and> evaluate scenario_evaluator (TagNode ''dog'')
         (lookup_failed (TagLookupFailed ''cat'') \<lparr>faults = [True], lookups = 0, printed = []\<rparr>)
       = Inr ({''2''}, \<lparr>faults = [], lookups = 2, printed = [TagLookupFailed ''cat'']\<rparr>)
   \<and> evaluate scenario_evaluator (OrNode (TagNode ''cat'') (TagNode ''dog''))
         \<lparr>faults = [True], lookups = 0, printed = []\<rparr>
       = Inr ({''2''}, \<lparr>faults = [], lookups = 2, printed = [TagLookupFailed ''cat'']\<rparr>)
   \<and> TagLookupFailed ''cat''
       \<in> set (printed \<lparr>faults = [], lookups = 2, printed = [TagLookupFailed ''cat'']\<rparr>)
   \<and> evaluate scenario_evaluator (TagNode ''dog'')
         \<lparr>faults = [False, True], lookups = 0, printed = []\<rparr>
       = Inr ({''2''}, \<lparr>faults = [True], lookups = 1, printed = []\<rparr>)
   \<and> raises \<lparr>faults = [True], lookups = 1, printed = []\<rparr>
   \<and> evaluate scenario_evaluator (OrNode (TagNode ''dog'') (TagNode ''cat''))
         \<lparr>faults = [False, True], lookups = 0, printed = []\<rparr>
       = Inr ({''2''}, lookup_failed (TagLookupFailed ''cat'')
                         \<lparr>faults = [True], lookups = 1, printed = []\<rparr>)"
proof -
  have s: "selected_directories scenario_evaluator \<noteq> {}"
    by (simp add: scenario_evaluator_def)
  have r0: "raises \<lparr>faults = [True], lookups = 0, printed = []\<rparr>"
    by (simp add: raises_def)
  have r1: "raises \<lparr>faults = [True], lookups = 1, printed = []\<rparr>"
    by (simp add: raises_def)
  have d0: "evaluate scenario_evaluator (TagNode ''dog'')
         (lookup_failed (TagLookupFailed ''cat'') \<lparr>faults = [True], lookups = 0, printed = []\<rparr>)
       = Inr ({''2''}, \<lparr>faults = [], lookups = 2, printed = [TagLookupFailed ''cat'']\<rparr>)"
    by code_simp
  have d1: "evaluate scenario_evaluator (TagNode ''dog'')
         \<lparr>faults = [False, True], lookups = 0, printed = []\<rparr>
       = Inr ({''2''}, \<lparr>faults = [True], lookups = 1, printed = []\<rparr>)"
    by code_simp
  note f0 = failed_lookup_degrades [OF s r0, of "''cat''"]
  note f1 = failed_lookup_degrades [OF s r1, of "''cat''"]
  from f0 d0 have a: "evaluate scenario_evaluator (OrNode (TagNode ''cat'') (TagNode ''dog''))
         \<lparr>faults = [True], lookups = 0, printed = []\<rparr>
       = Inr ({''2''}, \<lparr>faults = [], lookups = 2, printed = [TagLookupFailed ''cat'']\<rparr>)
     \<and> TagLookupFailed ''cat''
       \<in> set (printed \<lparr>faults = [], lookups = 2, printed = [TagLookupFailed ''cat'']\<rparr>)"
    by blast
  from f1 d1 have b: "evaluate scenario_evaluator (OrNode (TagNode ''dog'') (TagNode ''cat''))
         \<lparr>faults = [False, True], lookups = 0, printed = []\<rparr>
       = Inr ({''2''}, lookup_failed (TagLookupFailed ''cat'')
                         \<lparr>faults = [True], lookups = 1, printed = []\<rparr>)"
    by blast
  show ?thesis using s r0 r1 d0 d1 a b by blast
qed

section \<open>Objects of other classes\<close>

lemma other_classes_six: "six_variants n \<longleftrightarrow> other_classes n = {}"
  by (induction n) auto

lemma evaluate_error_origin:
  "evaluate ev m w = Inl (ValueError ty) \<Longrightarrow> ty \<in> other_classes m"
proof (induction m arbitrary: w)
  case (AndNode l r)
  then show ?case by (auto split: sum.splits prod.splits if_splits)
next
  case (OrNode l r)
  then show ?case by (auto split: sum.splits prod.splits)
next
  case (NotNode n)
  then show ?case by (auto split: sum.splits prod.splits)
qed simp_all

lemma evaluate_returns:
  assumes "six_variants n"
  shows "\<exists>r w'. evaluate ev n w = Inr (r, w')"
proof (cases "evaluate ev n w")
  case (Inl e)
  obtain ty where "e = ValueError ty" by (cases e)
  with Inl have "ty \<in> other_classes n" using evaluate_error_origin by blast
  with assms show ?thesis by (simp add: other_classes_six)
next
  case (Inr p)
  then show ?thesis by (cases p) simp
qed

text \<open>
  C10. \<^verbatim>\<open>evaluate\<close> raises \<^verbatim>\<open>ValueError\<close> on an object that is of none of the six node classes;
  on a tree built from the six classes only it returns a set; and a \<^verbatim>\<open>ValueError\<close> that
  comes out of \<^verbatim>\<open>evaluate\<close> names the class of such an object inside the tree.
\<close>

theorem value_error_only_for_other_nodes:
  "evaluate ev (OtherNode ty) w = Inl (ValueError ty)
   \<and> (six_variants n \<longrightarrow> (\<exists>r w'. evaluate ev n w = Inr (r, w')))
   \<and> (evaluate ev m w = Inl (ValueError ty') \<longrightarrow> ty' \<in> other_classes m)"
  using evaluate_returns [of n ev w] evaluate_error_origin [of ev m w ty'] by simp

theorem value_error_only_for_other_nodes_witness:
  "six_variants (NotNode (TagNode ''cat''))
   \<and> (\<exists>r w'. evaluate scenario_evaluator (NotNode (TagNode ''cat'')) quiet = Inr (r, w'))
   \<and> evaluate scenario_evaluator (OrNode AllImagesNode (OtherNode ''int'')) quiet
       = Inl (ValueError ''int'')
   \<and> ''int'' \<in> other_classes (OrNode AllImagesNode (OtherNode ''int''))"
proof -
  have s: "six_variants (NotNode (TagNode ''cat''))" by simp
  have e: "evaluate scenario_evaluator (OrNode AllImagesNode (OtherNode ''int'')) quiet
       = Inl (ValueError ''int'')"
    by (simp add: get_all_image_ids_in_scope_def)
  show ?thesis
    using value_error_only_for_other_nodes
      [of scenario_evaluator "''int''" quiet "NotNode (TagNode ''cat'')"
          "OrNode AllImagesNode (OtherNode ''int'')" "''int''"] s e
    by blast
qed

section \<open>Filtering a set of ids\<close>




section \<open>Tag names\<close>




section \<open>Scope prefixes\<close>

text \<open>
  For a directory without \<^verbatim>\<open>%\<close> and \<^verbatim>\<open>_\<close> in its name, the \<^verbatim>\<open>LIKE\<close> condition is a test
  for a prefix, up to ASCII letter case.
\<close>

lemma like_percent: "like ''%'' s"
  by (induction s) simp_all

lemma like_plain_prefix:
  assumes "CHR ''%'' \<notin> set d" and "CHR ''_'' \<notin> set d"
  shows "like (d @ ''%'') p \<longleftrightarrow> length d \<le> length p \<and> lower (take (length d) p) = lower d"
  using assms
proof (induction d arbitrary: p)
  case Nil
  show ?case using like_percent [of p] by (simp add: lower_def)
next
  case (Cons c d)
  show ?case
  proof (cases p)
    case Nil
    with Cons.prems show ?thesis by auto
  next
    case (Cons x xs)
    have "like (d @ ''%'') xs \<longleftrightarrow>
            length d \<le> length xs \<and> lower (take (length d) xs) = lower d"
      using Cons.IH Cons.prems by simp
    with Cons Cons.prems show ?thesis by (auto simp: lower_def)
  qed
qed

lemma lower_char_sep: "lower_char c = CHR ''/'' \<longleftrightarrow> c = CHR ''/''"
proof
  assume h: "lower_char c = CHR ''/''"
  show "c = CHR ''/''"
  proof (cases "65 \<le> (of_char c :: nat) \<and> (of_char c :: nat) \<le> 90")
    case True
    with h have "char_of ((of_char c :: nat) + 32) = CHR ''/''"
      by (simp add: lower_char_def Let_def)
    then have "(of_char (char_of ((of_char c :: nat) + 32) :: char) :: nat) = of_char CHR ''/''"
      by simp
    then have "((of_char c :: nat) + 32) mod 256 = 47" by simp
    with True show ?thesis by simp
  next
    case False
    with h show ?thesis by (simp add: lower_char_def Let_def)
  qed
next
  assume "c = CHR ''/''"
  then show "lower_char c = CHR ''/''" by (simp add: lower_char_def)
qed

text \<open>
  Such a directory, when it does not end with the separator, matches a path that goes on
  after the directory's own characters exactly when the next character is the separator:
  a sibling that only shares the leading string is not matched.
\<close>

lemma plain_prefix_sibling:
  assumes "CHR ''%'' \<notin> set d" and "CHR ''_'' \<notin> set d" and "\<not> endswith_sep d"
  shows "like (dir_param d) (d @ c # rest) \<longleftrightarrow> c = CHR ''/''"
proof -
  have w: "CHR ''%'' \<notin> set (d @ ''/'')" "CHR ''_'' \<notin> set (d @ ''/'')"
    using assms(1,2) by simp_all
  have "like (dir_param d) (d @ c # rest) \<longleftrightarrow> like ((d @ ''/'') @ ''%'') (d @ c # rest)"
    using assms(3) by (simp add: dir_param_def)
  also have "\<dots> \<longleftrightarrow> lower (d @ [c]) = lower (d @ ''/'')"
    unfolding like_plain_prefix [OF w] by simp
  also have "\<dots> \<longleftrightarrow> c = CHR ''/''"
    using lower_char_sep [of c] lower_char_sep [of "CHR ''/''"] by (simp add: lower_def)
  finally show ?thesis .
qed

text \<open>
  Directories that normalize to the same path are one element of the stored set, and the
  selected directory \<^verbatim>\<open>/a\<close> matches \<^verbatim>\<open>/a/x\<close> and not \<^verbatim>\<open>/ab/x\<close>.
\<close>

lemma init_deduplicates:
  "normalize_path a = normalize_path b \<Longrightarrow>
     selected_directories (init normalize_path d {a, b}) = {normalize_path a}"
  by (simp add: init_def)

lemma scope_prefix_example:
  "dir_where_clause {''/a''} ''/a/x'' \<and> \<not> dir_where_clause {''/a''} ''/ab/x''"
  by code_simp

text \<open>
  C7. A selected directory is put into the \<^verbatim>\<open>LIKE\<close> parameter as it is, so a \<^verbatim>\<open>%\<close> in its
  name is a wildcard: with the directory \<^verbatim>\<open>/a%\<close> selected, the parameter is \<^verbatim>\<open>/a%/%\<close>, and
  the scope holds the image at \<^verbatim>\<open>/a%/x\<close> and also the image at \<^verbatim>\<open>/a%b/x\<close>, in a sibling
  directory that shares the leading string.
\<close>

theorem wildcard_directory_matches_sibling:
  "dir_param ''/a%'' = ''/a%/%''
   \<and> result (evaluate
        \<lparr>db = \<lparr>images = [(''1'', ''/a%/x''), (''2'', ''/a%b/x'')], tags = [], image_tags = []\<rparr>,
         selected_directories = {''/a%''}\<rparr> AllImagesNode quiet)
     = Inr {''1'', ''2''}"
  by code_simp

end
